theory Spec2Isabelle
  imports Complex_Main
begin

section \<open>JavaScript values as the program sees them\<close>

text \<open>
  The program of \<^verbatim>\<open>src/composer.ts\<close> works on the results of \<^verbatim>\<open>JSON.parse\<close> and reads
  them dynamically, so the model keeps the dynamic values: a property read on
  \<^verbatim>\<open>null\<close> or \<^verbatim>\<open>undefined\<close> raises a \<^verbatim>\<open>TypeError\<close>, a missing property reads as
  \<^verbatim>\<open>undefined\<close>. A string is the list of its code units; the model covers code units
  below 256. A \<open>JObj\<close> lists the own properties of an object in the order in which
  the engine enumerates them.
\<close>

datatype jsvalue =
    JUndefined
  | JNull
  | JBool bool
  | JNum rat
  | JStr string
  | JArr "jsvalue list"
  | JObj "(string \<times> jsvalue) list"

datatype error = SyntaxError | TypeError

text \<open>Sequencing of computations that may throw: the first exception wins.\<close>

definition andThen :: "error + 'a \<Rightarrow> ('a \<Rightarrow> error + 'b) \<Rightarrow> error + 'b" where
  "andThen m f = (case m of Inl e \<Rightarrow> Inl e | Inr x \<Rightarrow> f x)"

text \<open>\<^verbatim>\<open>Array.prototype.map\<close> with a callback that may throw.\<close>

fun mapE :: "('a \<Rightarrow> error + 'b) \<Rightarrow> 'a list \<Rightarrow> error + 'b list" where
  "mapE f [] = Inr []"
| "mapE f (x # xs) =
     (case f x of
        Inl e \<Rightarrow> Inl e
      | Inr y \<Rightarrow> (case mapE f xs of Inl e \<Rightarrow> Inl e | Inr ys \<Rightarrow> Inr (y # ys)))"

text \<open>The conversion of a value to a boolean, as \<^verbatim>\<open>c ? a : b\<close> and \<^verbatim>\<open>!c\<close> do it.\<close>

fun truthy :: "jsvalue \<Rightarrow> bool" where
  "truthy JUndefined = False"
| "truthy JNull = False"
| "truthy (JBool b) = b"
| "truthy (JNum n) = (n \<noteq> 0)"
| "truthy (JStr s) = (s \<noteq> [])"
| "truthy (JArr xs) = True"
| "truthy (JObj kvs) = True"

fun isArray :: "jsvalue \<Rightarrow> bool" where
  "isArray (JArr xs) = True"
| "isArray v = False"

fun nullish :: "jsvalue \<Rightarrow> bool" where
  "nullish JUndefined = True"
| "nullish JNull = True"
| "nullish v = False"

text \<open>The decimal name of an array index, as property keys spell it.\<close>

fun index_key :: "nat \<Rightarrow> string" where
  "index_key n =
     (if n < 10 then [''0123456789'' ! n]
      else index_key (n div 10) @ [''0123456789'' ! (n mod 10)])"

declare index_key.simps [simp del]

text \<open>
  The enumerable own properties of a value: those of an object, the indices of an
  array, the indices of a string (each holding a one-unit string); a number or a
  boolean has none.
\<close>

fun own_props :: "jsvalue \<Rightarrow> (string \<times> jsvalue) list" where
  "own_props (JObj kvs) = kvs"
| "own_props (JArr xs) = zip (map index_key [0..<length xs]) xs"
| "own_props (JStr s) = zip (map index_key [0..<length s]) (map (\<lambda>c. JStr [c]) s)"
| "own_props v = []"

text \<open>
  \<open>property v k\<close> is the value read by \<^verbatim>\<open>v[k]\<close> on a value that is neither \<^verbatim>\<open>null\<close> nor
  \<^verbatim>\<open>undefined\<close>. Inherited properties are left out: the program reads only the
  fixed names of its interfaces, which no prototype defines, and keys that
  \<^verbatim>\<open>Object.keys\<close> returned for the same value.
\<close>

definition property :: "jsvalue \<Rightarrow> string \<Rightarrow> jsvalue" where
  "property v k = (case map_of (own_props v) k of None \<Rightarrow> JUndefined | Some x \<Rightarrow> x)"

definition get :: "jsvalue \<Rightarrow> string \<Rightarrow> error + jsvalue" where
  "get v k = (if nullish v then Inl TypeError else Inr (property v k))"

definition Object_keys :: "jsvalue \<Rightarrow> error + string list" where
  "Object_keys v = (if nullish v then Inl TypeError else Inr (map fst (own_props v)))"

text \<open>
  \<^verbatim>\<open>for (const x of v)\<close>: an array yields its elements, a string its characters,
  anything else that \<^verbatim>\<open>JSON.parse\<close> can produce is not iterable.
\<close>

fun iterate :: "jsvalue \<Rightarrow> error + jsvalue list" where
  "iterate (JArr xs) = Inr xs"
| "iterate (JStr s) = Inr (map (\<lambda>c. JStr [c]) s)"
| "iterate v = Inl TypeError"

subsection \<open>String operations\<close>

text \<open>White space and line terminators among the code units below 256.\<close>

definition is_space :: "char \<Rightarrow> bool" where
  "is_space c = (c \<in> set [CHR 0x09, CHR 0x0A, CHR 0x0B, CHR 0x0C, CHR 0x0D, CHR 0x20, CHR 0xA0])"

definition line_terminator :: "char \<Rightarrow> bool" where
  "line_terminator c = (c = CHR 0x0A \<or> c = CHR 0x0D)"

definition trim :: "string \<Rightarrow> string" where
  "trim s = rev (dropWhile is_space (rev (dropWhile is_space s)))"

text \<open>\<^verbatim>\<open>v.trim()\<close>: only a string has a callable \<^verbatim>\<open>trim\<close>.\<close>

fun call_trim :: "jsvalue \<Rightarrow> error + string" where
  "call_trim (JStr s) = Inr (trim s)"
| "call_trim v = Inl TypeError"

definition endsWith :: "string \<Rightarrow> string \<Rightarrow> bool" where
  "endsWith s searchString =
     (length searchString \<le> length s \<and>
      drop (length s - length searchString) s = searchString)"


section \<open>The catalog, as the interfaces declare it\<close>

text \<open>
  The interfaces \<^verbatim>\<open>ComposerArgument\<close>, \<^verbatim>\<open>ComposerOption\<close>,
  \<^verbatim>\<open>ComposerCommandDefinition\<close>, \<^verbatim>\<open>ComposerCommand\<close> and \<^verbatim>\<open>ComposerListOutput\<close>
  give the shape of a well-formed catalog. Nothing checks them when the program
  runs; here each is the predicate that a parsed value has the declared fields with
  the declared types.
\<close>

fun is_string :: "jsvalue \<Rightarrow> bool" where
  "is_string (JStr s) = True"
| "is_string v = False"

fun is_boolean :: "jsvalue \<Rightarrow> bool" where
  "is_boolean (JBool b) = True"
| "is_boolean v = False"

fun is_object :: "jsvalue \<Rightarrow> bool" where
  "is_object (JObj kvs) = True"
| "is_object v = False"

fun Array_of :: "(jsvalue \<Rightarrow> bool) \<Rightarrow> jsvalue \<Rightarrow> bool" where
  "Array_of P (JArr xs) = list_all P xs"
| "Array_of P v = False"

fun Record_of :: "(jsvalue \<Rightarrow> bool) \<Rightarrow> jsvalue \<Rightarrow> bool" where
  "Record_of P (JObj kvs) = list_all P (map snd kvs)"
| "Record_of P v = False"

definition ComposerArgument :: "jsvalue \<Rightarrow> bool" where
  "ComposerArgument a =
     (is_object a \<and>
      is_string (property a ''name'') \<and>
      is_boolean (property a ''is_required'') \<and>
      is_boolean (property a ''is_array'') \<and>
      is_string (property a ''description'') \<and>
      (property a ''default'' = JNull \<or> is_string (property a ''default'')
       \<or> Array_of is_string (property a ''default'')))"

definition ComposerOption :: "jsvalue \<Rightarrow> bool" where
  "ComposerOption option =
     (is_object option \<and>
      is_string (property option ''name'') \<and>
      is_string (property option ''shortcut'') \<and>
      is_boolean (property option ''accept_value'') \<and>
      is_boolean (property option ''is_value_required'') \<and>
      is_boolean (property option ''is_multiple'') \<and>
      is_string (property option ''description'') \<and>
      (property option ''default'' = JNull \<or> is_boolean (property option ''default'')))"

definition ComposerCommandDefinition :: "jsvalue \<Rightarrow> bool" where
  "ComposerCommandDefinition d =
     (is_object d \<and>
      Record_of ComposerArgument (property d ''arguments'') \<and>
      Record_of ComposerOption (property d ''options''))"

definition ComposerCommand :: "jsvalue \<Rightarrow> bool" where
  "ComposerCommand command =
     (is_object command \<and>
      is_string (property command ''name'') \<and>
      Array_of is_string (property command ''usage'') \<and>
      is_string (property command ''description'') \<and>
      is_string (property command ''help'') \<and>
      ComposerCommandDefinition (property command ''definition''))"

definition ComposerListOutput :: "jsvalue \<Rightarrow> bool" where
  "ComposerListOutput data =
     (is_object data \<and> Array_of ComposerCommand (property data ''commands''))"

section \<open>The completion schema\<close>

text \<open>
  The records of the host's schema that the program builds (\<^verbatim>\<open>Fig.Suggestion\<close>,
  \<^verbatim>\<open>Fig.Arg\<close>, \<^verbatim>\<open>Fig.Option\<close>, \<^verbatim>\<open>Fig.Subcommand\<close>, \<^verbatim>\<open>Fig.Spec\<close>). A field the
  program fills from the catalog holds whatever value the catalog had, so it is a
  \<open>jsvalue\<close>; a field that an object literal leaves out is \<open>JUndefined\<close>
  (\<open>None\<close> for the structured ones). A field that takes one item or an array of
  items keeps the difference.
\<close>

datatype 'a one_or_many = One 'a | Many "'a list"

datatype generator = searchGenerator | packagesGenerator

datatype icon = PackageEmoji

record FigSuggestion =
  sug_name :: jsvalue
  sug_description :: jsvalue
  sug_icon :: icon

record FigArg =
  arg_name :: jsvalue
  arg_description :: jsvalue
  arg_isOptional :: jsvalue
  arg_default :: jsvalue
  arg_isVariadic :: jsvalue
  arg_generators :: "generator one_or_many option"
  arg_template :: jsvalue

record FigOption =
  opt_name :: jsvalue
  opt_description :: jsvalue
  opt_isRequired :: jsvalue
  opt_args :: "FigArg option"
  opt_exclusiveOn :: jsvalue
  opt_isDangerous :: jsvalue

record FigSubcommand =
  sub_name :: jsvalue
  sub_description :: jsvalue
  sub_icon :: jsvalue
  sub_args :: "FigArg one_or_many"
  sub_options :: "FigOption list"

record FigSpec =
  spec_name :: string
  spec_subcommands :: "FigSubcommand list"

text \<open>The object literal \<^verbatim>\<open>{}\<close> as a \<^verbatim>\<open>Fig.Arg\<close>, and an option literal with a name and a description only.\<close>

definition empty_arg :: FigArg where
  "empty_arg =
     \<lparr>arg_name = JUndefined, arg_description = JUndefined, arg_isOptional = JUndefined,
      arg_default = JUndefined, arg_isVariadic = JUndefined, arg_generators = None,
      arg_template = JUndefined\<rparr>"

definition plain_option :: "jsvalue \<Rightarrow> string \<Rightarrow> FigOption" where
  "plain_option n d =
     \<lparr>opt_name = n, opt_description = JStr d, opt_isRequired = JUndefined, opt_args = None,
      opt_exclusiveOn = JUndefined, opt_isDangerous = JUndefined\<rparr>"

definition composerIcon :: string where
  "composerIcon = ''https://getcomposer.org/img/logo-composer-transparent5.png''"

section \<open>The dependency extractor\<close>

text \<open>
  \<^verbatim>\<open>PACKAGE_REGEXP = new RegExp("^.*/.*$")\<close>. The pattern between the two anchors is a
  sequence of items, each a literal character or \<^verbatim>\<open>.*\<close>; without flags the anchors
  are the two ends of the subject and \<^verbatim>\<open>.\<close> is any character but a line terminator.
  \<open>regexp_test\<close> tells whether the whole subject matches the sequence, which is
  all that \<^verbatim>\<open>filter\<close> looks at in the result of \<^verbatim>\<open>match\<close>.
\<close>

datatype regexp_item = Literal char | DotStar

fun regexp_test :: "regexp_item list \<Rightarrow> string \<Rightarrow> bool" where
  "regexp_test [] s = (s = [])"
| "regexp_test (Literal c # r) [] = False"
| "regexp_test (Literal c # r) (x # xs) = (x = c \<and> regexp_test r xs)"
| "regexp_test (DotStar # r) [] = regexp_test r []"
| "regexp_test (DotStar # r) (x # xs) =
     (regexp_test r (x # xs) \<or> (\<not> line_terminator x \<and> regexp_test (DotStar # r) xs))"

definition PACKAGE_REGEXP :: "regexp_item list" where
  "PACKAGE_REGEXP = [DotStar, Literal CHR ''/'', DotStar]"

definition filterRealDependencies :: "jsvalue \<Rightarrow> error + string list" where
  "filterRealDependencies dependencies =
     andThen (Object_keys dependencies)
       (\<lambda>keys. Inr (filter (\<lambda>dependency. regexp_test PACKAGE_REGEXP dependency) keys))"

section \<open>The remote search adapter\<close>

text \<open>
  \<^verbatim>\<open>searchGenerator.script\<close>: \<open>context\<close> is the host's token list. Reading past the
  start of an empty list gives \<^verbatim>\<open>undefined\<close>, which the template prints as a word.
\<close>

definition searchGenerator_script :: "string list \<Rightarrow> string" where
  \<open>searchGenerator_script context =
     (let searchTerm = (if context = [] then JUndefined else JStr (last context))
      in if searchTerm = JStr [] then []
         else ''curl -s -H "Accept: application/json" "https://packagist.org/search.json?q=''
              @ (case searchTerm of JStr s \<Rightarrow> s | _ \<Rightarrow> ''undefined'')
              @ ''&per_page=20"'')\<close>

text \<open>
  \<^verbatim>\<open>searchGenerator.postProcess\<close>. Its argument here is the outcome of
  \<^verbatim>\<open>JSON.parse(out)\<close>: \<open>None\<close> when that throws its \<^verbatim>\<open>SyntaxError\<close>, the parsed value
  otherwise. \<open>call_map\<close> is \<^verbatim>\<open>v.map(f)\<close>: of the values that \<^verbatim>\<open>JSON.parse\<close>
  produces only an array has a callable \<^verbatim>\<open>map\<close>.
\<close>

fun call_map :: "jsvalue \<Rightarrow> (jsvalue \<Rightarrow> error + 'b) \<Rightarrow> error + 'b list" where
  "call_map (JArr xs) f = mapE f xs"
| "call_map v f = Inl TypeError"

definition JSON_parse_outcome :: "jsvalue option \<Rightarrow> error + jsvalue" where
  "JSON_parse_outcome parsed = (case parsed of None \<Rightarrow> Inl SyntaxError | Some v \<Rightarrow> Inr v)"

definition searchGenerator_postProcess_try :: "jsvalue option \<Rightarrow> error + FigSuggestion list" where
  "searchGenerator_postProcess_try parsed =
     andThen (JSON_parse_outcome parsed) (\<lambda>v.
     andThen (get v ''results'') (\<lambda>results.
     call_map results (\<lambda>item.
       andThen (get item ''name'') (\<lambda>n.
       andThen (get item ''description'') (\<lambda>d.
       Inr \<lparr>sug_name = n, sug_description = d, sug_icon = PackageEmoji\<rparr>)))))"

definition searchGenerator_postProcess :: "jsvalue option \<Rightarrow> FigSuggestion list" where
  "searchGenerator_postProcess parsed =
     (case searchGenerator_postProcess_try parsed of Inl e \<Rightarrow> [] | Inr suggestions \<Rightarrow> suggestions)"


section \<open>The catalog transformer\<close>

subsection \<open>One argument and one option of a cataloged command\<close>

text \<open>
  The callback of \<^verbatim>\<open>Object.keys(command.definition.arguments).map\<close>, for a command
  whose \<^verbatim>\<open>name\<close> reads \<open>command_name\<close>. \<^verbatim>\<open>===\<close> and \<^verbatim>\<open>includes\<close> compare
  without conversion, so only the string itself is equal to a string.
\<close>

definition packagesGeneratorTriggersCommands :: "jsvalue list" where
  "packagesGeneratorTriggersCommands = [JStr ''update'', JStr ''remove'']"

definition argDefault :: "jsvalue \<Rightarrow> error + jsvalue" where
  "argDefault d =
     (if truthy d then (if isArray d then get d ''0'' else Inr d) else Inr JUndefined)"

definition argument_spec :: "jsvalue \<Rightarrow> jsvalue \<Rightarrow> string \<Rightarrow> error + FigArg" where
  "argument_spec command_name arguments argKey =
     andThen (get arguments argKey) (\<lambda>arg.
     andThen (get arg ''default'') (\<lambda>d.
     andThen (argDefault d) (\<lambda>argDefault.
     andThen (get arg ''name'') (\<lambda>n.
     andThen (get arg ''description'') (\<lambda>description.
     andThen (get arg ''is_required'') (\<lambda>is_required.
     andThen (get arg ''is_array'') (\<lambda>is_array.
     Inr \<lparr>arg_name = n,
          arg_description = description,
          arg_isOptional = JBool (\<not> truthy is_required),
          arg_default = argDefault,
          arg_isVariadic = is_array,
          arg_generators =
            Some (if command_name = JStr ''require'' then One searchGenerator
                  else if command_name \<in> set packagesGeneratorTriggersCommands
                  then One packagesGenerator
                  else Many []),
          arg_template = JUndefined\<rparr>)))))))"

text \<open>The callback of \<^verbatim>\<open>Object.keys(command.definition.options).map\<close>.\<close>

definition option_spec :: "jsvalue \<Rightarrow> string \<Rightarrow> error + FigOption" where
  "option_spec options optionKey =
     andThen (get options optionKey) (\<lambda>option.
     andThen (get option ''name'') (\<lambda>n.
     andThen (get option ''shortcut'') (\<lambda>shortCut.
     andThen (call_trim shortCut) (\<lambda>trimmed.
     (let names = (if length trimmed > 0 then [n] @ [shortCut] else [n]) in
     andThen (get option ''description'') (\<lambda>description.
     andThen (get option ''is_value_required'') (\<lambda>is_value_required.
     andThen (get option ''accept_value'') (\<lambda>accept_value.
     Inr \<lparr>opt_name = JArr names,
          opt_description = description,
          opt_isRequired = is_value_required,
          opt_args = (if truthy accept_value then Some empty_arg else None),
          opt_exclusiveOn = JUndefined,
          opt_isDangerous = JUndefined\<rparr>))))))))"

subsection \<open>One cataloged command\<close>

text \<open>The object literal pushed by the body of the loop, its fields evaluated in order.\<close>

definition command_entry :: "jsvalue \<Rightarrow> error + FigSubcommand" where
  "command_entry command =
     andThen (get command ''name'') (\<lambda>n.
     andThen (get command ''description'') (\<lambda>description.
     andThen (get command ''definition'') (\<lambda>definition.
     andThen (get definition ''arguments'') (\<lambda>arguments.
     andThen (Object_keys arguments) (\<lambda>argKeys.
     andThen (mapE (argument_spec n arguments) argKeys) (\<lambda>args.
     andThen (get command ''definition'') (\<lambda>definition.
     andThen (get definition ''options'') (\<lambda>options.
     andThen (Object_keys options) (\<lambda>optionKeys.
     andThen (mapE (option_spec options) optionKeys) (\<lambda>opts.
     Inr \<lparr>sub_name = n,
          sub_description = description,
          sub_icon = JStr composerIcon,
          sub_args = Many args,
          sub_options = opts\<rparr>))))))))))"

text \<open>
  The loop over \<^verbatim>\<open>data.commands\<close>. \<open>subcommands\<close> is the array declared before the
  \<^verbatim>\<open>try\<close>; each round appends one record to it, and an exception leaves the loop
  with the array as it is by then.
\<close>

fun push_commands ::
  "jsvalue list \<Rightarrow> FigSubcommand list \<Rightarrow> error option \<times> FigSubcommand list" where
  "push_commands [] subcommands = (None, subcommands)"
| "push_commands (command # rest) subcommands =
     (case command_entry command of
        Inl e \<Rightarrow> (Some e, subcommands)
      | Inr entry \<Rightarrow> push_commands rest (subcommands @ [entry]))"

subsection \<open>The two recipe commands\<close>

definition recipesCommonOptions :: "FigOption list" where
  "recipesCommonOptions =
     [plain_option (JArr [JStr ''-h'', JStr ''--help'']) ''Display this help message'',
      plain_option (JArr [JStr ''-q'', JStr ''--quiet'']) ''Do not output any message'',
      plain_option (JArr [JStr ''-V'', JStr ''--version'']) ''Display this application version'',
      (plain_option (JStr ''--ansi'') ''Force ANSI output'')
        \<lparr>opt_exclusiveOn := JArr [JStr ''--no-ansi'']\<rparr>,
      (plain_option (JStr ''--no-ansi'') ''Disable ANSI output'')
        \<lparr>opt_exclusiveOn := JArr [JStr ''--ansi'']\<rparr>,
      plain_option (JArr [JStr ''-n'', JStr ''--no-interaction''])
        ''Do not ask any interactive question'',
      plain_option (JStr ''--profile'') ''Display timing and memory usage information'',
      plain_option (JStr ''--no-plugins'') ''Whether to disable plugins'',
      (plain_option (JArr [JStr ''-d'', JStr ''--working-dir''])
         ''If specified, use the given directory as working directory'')
        \<lparr>opt_args := Some (empty_arg\<lparr>arg_name := JStr ''dir'', arg_template := JStr ''folders''\<rparr>)\<rparr>,
      plain_option (JStr ''--no-cache'') ''Prevent use of the cache'',
      plain_option (JArr [JStr ''-v'', JStr ''--verbose''])
        ''Verbosity of messages: 1 for normal output'',
      plain_option (JStr ''-vv'') ''Verbosity of messages: 2 for more verbose output'',
      plain_option (JStr ''-vvv'') ''Verbosity of messages: 3 for debug'']"

definition recipes :: FigSubcommand where
  "recipes =
     \<lparr>sub_name = JArr [JStr ''recipes'', JStr ''symfony:recipes''],
      sub_description = JStr ''Shows information about all available recipes'',
      sub_icon = JStr composerIcon,
      sub_args = One (empty_arg
        \<lparr>arg_name := JStr ''package'',
         arg_description := JStr ''Package to inspect, if not provided all packages are'',
         arg_isOptional := JBool True,
         arg_isVariadic := JBool False\<rparr>),
      sub_options =
        plain_option (JArr [JStr ''-o'', JStr ''--outdated''])
          ''Show only recipes that are outdated''
        # recipesCommonOptions\<rparr>"

definition recipes_install :: FigSubcommand where
  "recipes_install =
     \<lparr>sub_name = JArr [JStr ''recipes:install'', JStr ''symfony:recipes:install'',
                       JStr ''symfony:sync-recipes'', JStr ''sync-recipes'', JStr ''fix-recipes''],
      sub_description = JStr ''Installs or reinstalls recipes for already installed packages'',
      sub_icon = JStr composerIcon,
      sub_args = One (empty_arg
        \<lparr>arg_name := JStr ''packages'',
         arg_description := JStr ''Recipes that should be installed'',
         arg_isVariadic := JBool True\<rparr>),
      sub_options =
        (plain_option (JStr ''--force'')
           ''Overwrite existing files when a new version of a recipe is available'')
          \<lparr>opt_isDangerous := JBool True\<rparr>
        # recipesCommonOptions\<rparr>"

subsection \<open>The entry point\<close>

text \<open>
  \<^verbatim>\<open>generateSpec\<close>. Its two inputs are what the two shell commands gave: \<open>parsed\<close>
  is the outcome of \<^verbatim>\<open>JSON.parse(jsonList)\<close> (\<open>None\<close> when it throws) and
  \<open>symfonyLock\<close> the text printed by \<^verbatim>\<open>file symfony.lock\<close>.
  \<open>generateSpec_try\<close> is the \<^verbatim>\<open>try\<close> block, started on the array \<open>subcommands\<close>: it
  returns the exception that ended it, if any, and the array as it left it.
  \<open>generateSpec\<close> returns the tree and the errors written by \<^verbatim>\<open>console.error\<close>.
\<close>

definition symfonyLockExists :: "string \<Rightarrow> bool" where
  "symfonyLockExists symfonyLock = (\<not> endsWith symfonyLock ''(No such file or directory)'')"

text \<open>The sequence that \<^verbatim>\<open>for (const command of data.commands)\<close> runs over, if it gets that far.\<close>

definition catalog_commands :: "jsvalue option \<Rightarrow> error + jsvalue list" where
  "catalog_commands parsed =
     andThen (JSON_parse_outcome parsed) (\<lambda>data.
     andThen (get data ''commands'') (\<lambda>commands.
     iterate commands))"

definition generateSpec_try ::
  "jsvalue option \<Rightarrow> string \<Rightarrow> FigSubcommand list \<Rightarrow> error option \<times> FigSubcommand list" where
  "generateSpec_try parsed symfonyLock subcommands =
     (case catalog_commands parsed of
        Inl e \<Rightarrow> (Some e, subcommands)
      | Inr commands \<Rightarrow>
          (case push_commands commands subcommands of
             (Some e, subcommands') \<Rightarrow> (Some e, subcommands')
           | (None, subcommands') \<Rightarrow>
               (None,
                if symfonyLockExists symfonyLock
                then (subcommands' @ [recipes]) @ [recipes_install]
                else subcommands')))"

definition generateSpec :: "jsvalue option \<Rightarrow> string \<Rightarrow> FigSpec \<times> error list" where
  "generateSpec parsed symfonyLock =
     (case generateSpec_try parsed symfonyLock [] of
        (None, subcommands') \<Rightarrow>
          (\<lparr>spec_name = ''composer'', spec_subcommands = subcommands'\<rparr>, [])
      | (Some err, subcommands') \<Rightarrow>
          (\<lparr>spec_name = ''composer'', spec_subcommands = subcommands'\<rparr>, [err]))"


subsection \<open>What the transformer needs of a catalog\<close>

text \<open>
  The loop reads less than the interfaces declare. A command is well-formed for it
  when each of its reads finds a value to read from: the command, its
  \<^verbatim>\<open>definition\<close>, the \<^verbatim>\<open>arguments\<close> and \<^verbatim>\<open>options\<close> of that and every argument are
  neither \<^verbatim>\<open>null\<close> nor \<^verbatim>\<open>undefined\<close>, and every option has a string as its
  \<^verbatim>\<open>shortcut\<close>. A catalog is well-formed when its \<^verbatim>\<open>commands\<close> is an array of such
  commands.
\<close>

definition well_formed_command :: "jsvalue \<Rightarrow> bool" where
  "well_formed_command command =
     (\<not> nullish command \<and>
      \<not> nullish (property command ''definition'') \<and>
      \<not> nullish (property (property command ''definition'') ''arguments'') \<and>
      list_all (\<lambda>arg. \<not> nullish arg)
        (map snd (own_props (property (property command ''definition'') ''arguments''))) \<and>
      \<not> nullish (property (property command ''definition'') ''options'') \<and>
      list_all (\<lambda>option. is_string (property option ''shortcut''))
        (map snd (own_props (property (property command ''definition'') ''options''))))"

definition well_formed_catalog :: "jsvalue \<Rightarrow> bool" where
  "well_formed_catalog data = Array_of well_formed_command (property data ''commands'')"

section \<open>The end-to-end example of the specification\<close>

text \<open>
  A catalog with the single command \<^verbatim>\<open>require\<close>, which has one required argument and
  no options, and the record that the loop builds for that command.
\<close>

definition example_require :: jsvalue where
  "example_require =
     JObj [(''name'', JStr ''require''),
           (''definition'',
            JObj [(''arguments'',
                   JObj [(''a'', JObj [(''name'', JStr ''package''),
                                       (''is_required'', JBool True),
                                       (''is_array'', JBool False),
                                       (''description'', JStr ''d''),
                                       (''default'', JNull)])]),
                  (''options'', JObj [])])]"

definition example_require_entry :: FigSubcommand where
  "example_require_entry =
     \<lparr>sub_name = JStr ''require'',
      sub_description = JUndefined,
      sub_icon = JStr composerIcon,
      sub_args = Many [\<lparr>arg_name = JStr ''package'',
                        arg_description = JStr ''d'',
                        arg_isOptional = JBool False,
                        arg_default = JUndefined,
                        arg_isVariadic = JBool False,
                        arg_generators = Some (One searchGenerator),
                        arg_template = JUndefined\<rparr>],
      sub_options = []\<rparr>"

definition example_catalog :: jsvalue where
  "example_catalog = JObj [(''commands'', JArr [example_require])]"

text \<open>The same catalog followed by a command record that has a name and nothing else.\<close>

definition example_catalog_malformed_second :: jsvalue where
  "example_catalog_malformed_second =
     JObj [(''commands'', JArr [example_require, JObj [(''name'', JStr ''broken'')]])]"

section \<open>Exceptions, property reads and loops: basic facts\<close>

lemma andThen_Inl [simp]: "andThen (Inl e) f = Inl e"
  by (simp add: andThen_def)

lemma andThen_Inr [simp]: "andThen (Inr x) f = f x"
  by (simp add: andThen_def)

lemma andThen_eq_Inr: "andThen m f = Inr y \<longleftrightarrow> (\<exists>x. m = Inr x \<and> f x = Inr y)"
  by (cases m) simp_all

lemma get_eq_Inr: "get v k = Inr x \<longleftrightarrow> (\<not> nullish v \<and> x = property v k)"
  by (auto simp: get_def)

lemma get_not_nullish [simp]: "\<not> nullish v \<Longrightarrow> get v k = Inr (property v k)"
  by (simp add: get_def)

lemma get_nullish [simp]: "nullish v \<Longrightarrow> get v k = Inl TypeError"
  by (simp add: get_def)

lemma property_nullish [simp]: "nullish v \<Longrightarrow> property v k = JUndefined"
  by (cases v) (simp_all add: property_def)

lemma Object_keys_eq_Inr: "Object_keys v = Inr ks \<longleftrightarrow> (\<not> nullish v \<and> ks = map fst (own_props v))"
  by (auto simp: Object_keys_def)

lemma mapE_eq_Inr: "mapE f xs = Inr ys \<longleftrightarrow> list_all2 (\<lambda>x y. f x = Inr y) xs ys"
proof (induction xs arbitrary: ys)
  case Nil
  show ?case by auto
next
  case (Cons x xs)
  show ?case
  proof (cases "f x")
    case (Inl e)
    then show ?thesis by (auto simp: list_all2_Cons1)
  next
    case fx: (Inr y)
    show ?thesis
    proof (cases "mapE f xs")
      case (Inl e)
      with fx Cons.IH show ?thesis by (auto simp: list_all2_Cons1)
    next
      case (Inr zs)
      with fx Cons.IH show ?thesis by (auto simp: list_all2_Cons1)
    qed
  qed
qed

lemma mapE_total:
  assumes "\<And>x. x \<in> set xs \<Longrightarrow> \<exists>y. f x = Inr y"
  shows "\<exists>ys. mapE f xs = Inr ys"
  using assms
proof (induction xs)
  case Nil
  show ?case by simp
next
  case (Cons x xs)
  then obtain y ys where "f x = Inr y" "mapE f xs = Inr ys"
    by (meson list.set_intros)
  then show ?case by simp
qed

lemma push_commands_done:
  "push_commands commands subcommands = (None, result) \<longleftrightarrow>
     (\<exists>entries. mapE command_entry commands = Inr entries \<and> result = subcommands @ entries)"
proof (induction commands arbitrary: subcommands)
  case Nil
  show ?case by auto
next
  case (Cons c cs)
  show ?case
  proof (cases "command_entry c")
    case (Inl e)
    then show ?thesis by simp
  next
    case (Inr entry)
    then show ?thesis
      using Cons.IH [of "subcommands @ [entry]"]
      by (cases "mapE command_entry cs") auto
  qed
qed

lemma push_commands_raised:
  "push_commands commands subcommands = (Some e, result) \<longleftrightarrow>
     (\<exists>before failing after entries.
        commands = before @ failing # after \<and> mapE command_entry before = Inr entries \<and>
        command_entry failing = Inl e \<and> result = subcommands @ entries)"
proof (induction commands arbitrary: subcommands)
  case Nil
  show ?case by auto
next
  case (Cons c cs)
  show ?case
  proof (cases "command_entry c")
    case (Inl e')
    show ?thesis
    proof
      assume "push_commands (c # cs) subcommands = (Some e, result)"
      with Inl have "e' = e" "result = subcommands" by simp_all
      with Inl have "c # cs = [] @ c # cs \<and> mapE command_entry [] = Inr [] \<and>
        command_entry c = Inl e \<and> result = subcommands @ []" by simp
      then show "\<exists>before failing after entries.
        c # cs = before @ failing # after \<and> mapE command_entry before = Inr entries \<and>
        command_entry failing = Inl e \<and> result = subcommands @ entries" by blast
    next
      assume "\<exists>before failing after entries.
        c # cs = before @ failing # after \<and> mapE command_entry before = Inr entries \<and>
        command_entry failing = Inl e \<and> result = subcommands @ entries"
      then obtain before failing after entries where
        *: "c # cs = before @ failing # after" "mapE command_entry before = Inr entries"
           "command_entry failing = Inl e" "result = subcommands @ entries" by blast
      show "push_commands (c # cs) subcommands = (Some e, result)"
      proof (cases before)
        case Nil
        with * Inl show ?thesis by simp
      next
        case (Cons b bs)
        with * Inl show ?thesis by simp
      qed
    qed
  next
    case (Inr entry)
    show ?thesis
    proof
      assume "push_commands (c # cs) subcommands = (Some e, result)"
      with Inr have "push_commands cs (subcommands @ [entry]) = (Some e, result)" by simp
      then obtain before failing after entries where
        *: "cs = before @ failing # after" "mapE command_entry before = Inr entries"
           "command_entry failing = Inl e" "result = (subcommands @ [entry]) @ entries"
        using Cons.IH [of "subcommands @ [entry]"] by blast
      with Inr have "c # cs = (c # before) @ failing # after \<and>
        mapE command_entry (c # before) = Inr (entry # entries) \<and>
        command_entry failing = Inl e \<and> result = subcommands @ (entry # entries)" by simp
      then show "\<exists>before failing after entries.
        c # cs = before @ failing # after \<and> mapE command_entry before = Inr entries \<and>
        command_entry failing = Inl e \<and> result = subcommands @ entries" by blast
    next
      assume "\<exists>before failing after entries.
        c # cs = before @ failing # after \<and> mapE command_entry before = Inr entries \<and>
        command_entry failing = Inl e \<and> result = subcommands @ entries"
      then obtain before failing after entries where
        *: "c # cs = before @ failing # after" "mapE command_entry before = Inr entries"
           "command_entry failing = Inl e" "result = subcommands @ entries" by blast
      show "push_commands (c # cs) subcommands = (Some e, result)"
      proof (cases before)
        case Nil
        with * Inr show ?thesis by simp
      next
        case (Cons b bs)
        with * Inr obtain rest where
          "cs = bs @ failing # after" "mapE command_entry bs = Inr rest" "entries = entry # rest"
          by (auto split: sum.splits)
        with * Inr show ?thesis
          using Cons.IH [of "subcommands @ [entry]"] by auto
      qed
    qed
  qed
qed

lemma mapE_length: "mapE f xs = Inr ys \<Longrightarrow> length ys = length xs"
  by (simp add: mapE_eq_Inr list_all2_lengthD)

lemma mapE_nth: "mapE f xs = Inr ys \<Longrightarrow> i < length xs \<Longrightarrow> f (xs ! i) = Inr (ys ! i)"
  unfolding mapE_eq_Inr by (auto dest: list_all2_nthD)

lemma mapE_result_from:
  "mapE f xs = Inr ys \<Longrightarrow> y \<in> set ys \<Longrightarrow> \<exists>x \<in> set xs. f x = Inr y"
  by (induction xs arbitrary: ys) (auto split: sum.splits)

text \<open>An own key of a value holds one of the value's own property values.\<close>

lemma property_own_key:
  assumes "k \<in> set (map fst (own_props v))"
  shows "property v k \<in> set (map snd (own_props v))"
proof -
  from assms have "map_of (own_props v) k \<noteq> None"
    by (simp add: map_of_eq_None_iff)
  then obtain x where x: "map_of (own_props v) k = Some x"
    by blast
  then have "(k, x) \<in> set (own_props v)"
    by (rule map_of_SomeD)
  then have "x \<in> set (map snd (own_props v))"
    by force
  with x show ?thesis by (simp add: property_def)
qed

lemma index_key_0 [simp]: "index_key 0 = ''0''"
  by (simp add: index_key.simps)

lemma property_first_element [simp]: "property (JArr (x # xs)) ''0'' = x"
  by (simp add: property_def upt_conv_Cons del: upt_Suc)

lemma property_empty_array [simp]: "property (JArr []) k = JUndefined"
  by (simp add: property_def)

lemma argDefault_cases:
  "argDefault d =
     Inr (if truthy d then (if isArray d then property d ''0'' else d) else JUndefined)"
  by (cases d) (simp_all add: argDefault_def)

lemma argument_spec_eq:
  assumes "\<not> nullish arguments" and "\<not> nullish (property arguments argKey)"
  shows "argument_spec command_name arguments argKey =
     Inr \<lparr>arg_name = property (property arguments argKey) ''name'',
          arg_description = property (property arguments argKey) ''description'',
          arg_isOptional = JBool (\<not> truthy (property (property arguments argKey) ''is_required'')),
          arg_default =
            (let d = property (property arguments argKey) ''default''
             in if truthy d then (if isArray d then property d ''0'' else d) else JUndefined),
          arg_isVariadic = property (property arguments argKey) ''is_array'',
          arg_generators =
            Some (if command_name = JStr ''require'' then One searchGenerator
                  else if command_name \<in> set packagesGeneratorTriggersCommands
                  then One packagesGenerator
                  else Many []),
          arg_template = JUndefined\<rparr>"
  using assms by (simp add: argument_spec_def argDefault_cases Let_def)

lemma argument_spec_raises:
  assumes "nullish arguments \<or> nullish (property arguments argKey)"
  shows "argument_spec command_name arguments argKey = Inl TypeError"
proof (cases "nullish arguments")
  case True
  then show ?thesis by (simp add: argument_spec_def)
next
  case False
  with assms show ?thesis by (simp add: argument_spec_def)
qed

lemma call_trim_eq_Inr: "call_trim v = Inr t \<longleftrightarrow> (\<exists>s. v = JStr s \<and> t = trim s)"
  by (cases v) auto

lemma option_spec_eq:
  assumes "\<not> nullish options" and "property (property options optionKey) ''shortcut'' = JStr s"
  shows "option_spec options optionKey =
     Inr \<lparr>opt_name = JArr (if trim s = [] then [property (property options optionKey) ''name'']
                            else [property (property options optionKey) ''name'', JStr s]),
          opt_description = property (property options optionKey) ''description'',
          opt_isRequired = property (property options optionKey) ''is_value_required'',
          opt_args = (if truthy (property (property options optionKey) ''accept_value'')
                      then Some empty_arg else None),
          opt_exclusiveOn = JUndefined,
          opt_isDangerous = JUndefined\<rparr>"
proof -
  from assms(2) have "\<not> nullish (property options optionKey)"
    by (cases "property options optionKey") (simp_all add: property_def)
  with assms show ?thesis
    by (simp add: option_spec_def Let_def)
qed

lemma option_spec_Inr_shortcut:
  assumes "option_spec options optionKey = Inr opt"
  shows "\<not> nullish options \<and> (\<exists>s. property (property options optionKey) ''shortcut'' = JStr s)"
proof -
  have 1: "\<not> nullish options"
    using assms by (cases "nullish options") (simp_all add: option_spec_def)
  have 2: "\<not> nullish (property options optionKey)"
    using assms 1 by (cases "nullish (property options optionKey)") (simp_all add: option_spec_def)
  have "\<exists>t. call_trim (property (property options optionKey) ''shortcut'') = Inr t"
    using assms 1 2
    by (cases "call_trim (property (property options optionKey) ''shortcut'')")
       (simp_all add: option_spec_def)
  with 1 show ?thesis by (auto simp: call_trim_eq_Inr)
qed

section \<open>The dependency extractor: which keys it returns\<close>

lemma regexp_test_DotStar:
  "regexp_test [DotStar] s \<longleftrightarrow> \<not> list_ex line_terminator s"
  by (induction s) auto

lemma slash_no_line_terminator: "\<not> line_terminator CHR ''/''"
  by (simp add: line_terminator_def)

lemma PACKAGE_REGEXP_test:
  "regexp_test PACKAGE_REGEXP s \<longleftrightarrow> CHR ''/'' \<in> set s \<and> \<not> list_ex line_terminator s"
  unfolding PACKAGE_REGEXP_def
  by (induction s) (auto simp: regexp_test_DotStar slash_no_line_terminator)

text \<open>
  Claim C3, as amended. Applied to a dependency mapping, \<^verbatim>\<open>filterRealDependencies\<close>
  returns exactly the keys that contain a \<^verbatim>\<open>/\<close> and no line terminator, in the order
  of \<^verbatim>\<open>Object.keys\<close>: \<^verbatim>\<open>.*\<close> also matches the empty string, so nothing is asked of
  the parts before and after the slash.
\<close>

theorem filterRealDependencies_keys_with_slash:
  "filterRealDependencies (JObj dependencies) =
     Inr (filter (\<lambda>key. CHR ''/'' \<in> set key \<and> \<not> list_ex line_terminator key)
            (map fst dependencies))"
  by (simp add: filterRealDependencies_def Object_keys_def PACKAGE_REGEXP_test)

text \<open>The example of the specification: of \<^verbatim>\<open>vendor/pkg\<close> and \<^verbatim>\<open>notapackage\<close> the first is kept.\<close>

theorem filterRealDependencies_keys_with_slash_witness:
  "filterRealDependencies (JObj [(''vendor/pkg'', JStr ''^1.0''), (''notapackage'', JStr ''^2.0'')])
     = Inr [''vendor/pkg'']"
  using filterRealDependencies_keys_with_slash
    [of "[(''vendor/pkg'', JStr ''^1.0''), (''notapackage'', JStr ''^2.0'')]"]
  by (simp add: line_terminator_def)

text \<open>
  Claim C3 as it was stated asks for a character on each side of the slash and names
  the keys \<^verbatim>\<open>/\<close>, \<^verbatim>\<open>/x\<close> and \<^verbatim>\<open>x/\<close> as excluded. All three are returned.
\<close>

theorem filterRealDependencies_empty_parts_counterexample:
  "filterRealDependencies (JObj [(''/'', JStr ''1''), (''/x'', JStr ''2''), (''x/'', JStr ''3'')])
     = Inr [''/'', ''/x'', ''x/'']"
  by (simp add: filterRealDependencies_def Object_keys_def PACKAGE_REGEXP_def line_terminator_def)

section \<open>Arguments of a cataloged command\<close>

text \<open>
  Claim C5. For an argument that the callback can read (the arguments value and the
  argument itself are neither \<^verbatim>\<open>null\<close> nor \<^verbatim>\<open>undefined\<close>) the emitted record exists
  and its default is: the first element of \<^verbatim>\<open>default\<close> when that is a non-empty
  array; \<^verbatim>\<open>default\<close> itself when it is truthy and no array, which covers every
  truthy scalar; absent when \<^verbatim>\<open>default\<close> is absent or falsy. A \<^verbatim>\<open>default\<close> of
  \<^verbatim>\<open>["main"]\<close> gives \<^verbatim>\<open>"main"\<close>.
\<close>

theorem argument_default_resolution:
  assumes "\<not> nullish arguments" and "\<not> nullish (property arguments argKey)"
  shows "\<exists>a. argument_spec command_name arguments argKey = Inr a \<and>
    (\<forall>x xs. property (property arguments argKey) ''default'' = JArr (x # xs)
       \<longrightarrow> arg_default a = x) \<and>
    (truthy (property (property arguments argKey) ''default'') \<and>
     \<not> isArray (property (property arguments argKey) ''default'')
       \<longrightarrow> arg_default a = property (property arguments argKey) ''default'') \<and>
    (property (property arguments argKey) ''default'' = JUndefined \<or>
     \<not> truthy (property (property arguments argKey) ''default'')
       \<longrightarrow> arg_default a = JUndefined) \<and>
    (property (property arguments argKey) ''default'' = JArr [JStr ''main'']
       \<longrightarrow> arg_default a = JStr ''main'')"
  using assms by (auto simp: argument_spec_eq Let_def)

theorem argument_default_resolution_witness:
  "\<exists>a. argument_spec (JStr ''create-project'')
          (JObj [(''branch'', JObj [(''name'', JStr ''branch''), (''is_required'', JBool False),
                   (''is_array'', JBool False), (''description'', JStr ''Branch to use''),
                   (''default'', JArr [JStr ''main''])])]) ''branch'' = Inr a \<and>
       arg_default a = JStr ''main''"
  using argument_default_resolution
    [of "JObj [(''branch'', JObj [(''name'', JStr ''branch''), (''is_required'', JBool False),
                   (''is_array'', JBool False), (''description'', JStr ''Branch to use''),
                   (''default'', JArr [JStr ''main''])])]" "''branch''" "JStr ''create-project''"]
  by (simp add: property_def)

text \<open>
  Claim C9. An argument whose \<^verbatim>\<open>default\<close> is the empty array gets no default: the
  empty array is truthy, so its element \<^verbatim>\<open>0\<close> is read, and that is \<^verbatim>\<open>undefined\<close>.
\<close>

theorem empty_default_sequence_gives_no_default:
  assumes "\<not> nullish arguments"
    and "property (property arguments argKey) ''default'' = JArr []"
  shows "\<exists>a. argument_spec command_name arguments argKey = Inr a \<and>
    arg_default a = JUndefined \<and>
    truthy (property (property arguments argKey) ''default'')"
proof -
  from assms(2) have "\<not> nullish (property arguments argKey)"
    by (cases "property arguments argKey") (simp_all add: property_def)
  with assms show ?thesis by (simp add: argument_spec_eq Let_def)
qed

theorem empty_default_sequence_gives_no_default_witness:
  "\<exists>a. argument_spec (JStr ''update'')
          (JObj [(''packages'', JObj [(''name'', JStr ''packages''), (''is_required'', JBool False),
                   (''is_array'', JBool True), (''description'', JStr ''Packages''),
                   (''default'', JArr [])])]) ''packages'' = Inr a \<and>
       arg_default a = JUndefined"
  using empty_default_sequence_gives_no_default
    [of "JObj [(''packages'', JObj [(''name'', JStr ''packages''), (''is_required'', JBool False),
                   (''is_array'', JBool True), (''description'', JStr ''Packages''),
                   (''default'', JArr [])])]" "''packages''" "JStr ''update''"]
  by (simp add: property_def)

section \<open>Options of a cataloged command\<close>

text \<open>
  Claim C6. For an option that the callback can read (the options value is neither
  \<^verbatim>\<open>null\<close> nor \<^verbatim>\<open>undefined\<close> and the option's \<^verbatim>\<open>shortcut\<close> is a string) the emitted
  record exists and its \<^verbatim>\<open>isRequired\<close> is the option's \<^verbatim>\<open>is_value_required\<close>, whatever
  the other fields hold.
\<close>

theorem option_required_is_value_required:
  assumes "\<not> nullish options"
    and "property (property options optionKey) ''shortcut'' = JStr shortcut"
  shows "\<exists>opt. option_spec options optionKey = Inr opt \<and>
    opt_isRequired opt = property (property options optionKey) ''is_value_required''"
  using assms by (simp add: option_spec_eq)

theorem option_required_is_value_required_witness:
  "\<exists>opt. option_spec
      (JObj [(''working-dir'', JObj [(''name'', JStr ''--working-dir''), (''shortcut'', JStr ''-d''),
               (''accept_value'', JBool True), (''is_value_required'', JBool True),
               (''is_multiple'', JBool False), (''description'', JStr ''dir''),
               (''default'', JNull)])]) ''working-dir'' = Inr opt \<and>
     opt_isRequired opt = JBool True"
  using option_required_is_value_required
    [of "JObj [(''working-dir'', JObj [(''name'', JStr ''--working-dir''), (''shortcut'', JStr ''-d''),
               (''accept_value'', JBool True), (''is_value_required'', JBool True),
               (''is_multiple'', JBool False), (''description'', JStr ''dir''),
               (''default'', JNull)])]" "''working-dir''" "''-d''"]
  by (simp add: property_def)

text \<open>
  Claim C7. The alias list of the emitted option starts with the option's \<^verbatim>\<open>name\<close>,
  and the shortcut follows as the second and last entry exactly when trimming leaves
  something of it: the shortcut \<^verbatim>\<open>""\<close> gives one alias, the shortcut \<^verbatim>\<open>"o"\<close> two.
\<close>

theorem option_alias_list:
  assumes "\<not> nullish options"
    and "property (property options optionKey) ''shortcut'' = JStr shortcut"
  shows "\<exists>opt. option_spec options optionKey = Inr opt \<and>
    opt_name opt =
      JArr (property (property options optionKey) ''name''
            # (if trim shortcut = [] then [] else [JStr shortcut])) \<and>
    (shortcut = [] \<longrightarrow>
       opt_name opt = JArr [property (property options optionKey) ''name'']) \<and>
    (shortcut = ''o'' \<longrightarrow>
       opt_name opt = JArr [property (property options optionKey) ''name'', JStr ''o''])"
  using assms by (simp add: option_spec_eq trim_def is_space_def)

theorem option_alias_list_witness:
  "(\<exists>opt. option_spec
      (JObj [(''optimize'', JObj [(''name'', JStr ''--optimize''), (''shortcut'', JStr ''o''),
               (''accept_value'', JBool False), (''is_value_required'', JBool False),
               (''is_multiple'', JBool False), (''description'', JStr ''Optimize''),
               (''default'', JBool False)])]) ''optimize'' = Inr opt \<and>
     opt_name opt = JArr [JStr ''--optimize'', JStr ''o'']) \<and>
   (\<exists>opt. option_spec
      (JObj [(''dev'', JObj [(''name'', JStr ''--dev''), (''shortcut'', JStr []),
               (''accept_value'', JBool False), (''is_value_required'', JBool False),
               (''is_multiple'', JBool False), (''description'', JStr ''Dev''),
               (''default'', JBool False)])]) ''dev'' = Inr opt \<and>
     opt_name opt = JArr [JStr ''--dev''])"
  using option_alias_list
    [of "JObj [(''optimize'', JObj [(''name'', JStr ''--optimize''), (''shortcut'', JStr ''o''),
               (''accept_value'', JBool False), (''is_value_required'', JBool False),
               (''is_multiple'', JBool False), (''description'', JStr ''Optimize''),
               (''default'', JBool False)])]" "''optimize''" "''o''"]
    option_alias_list
    [of "JObj [(''dev'', JObj [(''name'', JStr ''--dev''), (''shortcut'', JStr []),
               (''accept_value'', JBool False), (''is_value_required'', JBool False),
               (''is_multiple'', JBool False), (''description'', JStr ''Dev''),
               (''default'', JBool False)])]" "''dev''" "[]"]
  by (simp add: property_def) blast

text \<open>
  Claim C10. When trimming leaves something of the shortcut, the alias that is
  appended is the shortcut as the catalog has it, surrounding white space included.
\<close>

theorem option_alias_is_untrimmed_shortcut:
  assumes "\<not> nullish options"
    and "property (property options optionKey) ''shortcut'' = JStr shortcut"
    and "trim shortcut \<noteq> []"
  shows "\<exists>opt. option_spec options optionKey = Inr opt \<and>
    opt_name opt = JArr [property (property options optionKey) ''name'', JStr shortcut]"
  using assms by (simp add: option_spec_eq)

theorem option_alias_is_untrimmed_shortcut_witness:
  "trim '' o '' = ''o'' \<and>
   (\<exists>opt. option_spec
      (JObj [(''optimize'', JObj [(''name'', JStr ''--optimize''), (''shortcut'', JStr '' o ''),
               (''accept_value'', JBool False), (''is_value_required'', JBool False),
               (''is_multiple'', JBool False), (''description'', JStr ''Optimize''),
               (''default'', JBool False)])]) ''optimize'' = Inr opt \<and>
     opt_name opt = JArr [JStr ''--optimize'', JStr '' o ''])"
  using option_alias_is_untrimmed_shortcut
    [of "JObj [(''optimize'', JObj [(''name'', JStr ''--optimize''), (''shortcut'', JStr '' o ''),
               (''accept_value'', JBool False), (''is_value_required'', JBool False),
               (''is_multiple'', JBool False), (''description'', JStr ''Optimize''),
               (''default'', JBool False)])]" "''optimize''" "'' o ''"]
  by (simp add: property_def trim_def is_space_def)

section \<open>One cataloged command\<close>

lemma command_entry_eq_Inr:
  "command_entry command = Inr entry \<longleftrightarrow>
     (\<not> nullish command \<and> \<not> nullish (property command ''definition'') \<and>
      \<not> nullish (property (property command ''definition'') ''arguments'') \<and>
      \<not> nullish (property (property command ''definition'') ''options'') \<and>
      (\<exists>args opts.
         mapE (argument_spec (property command ''name'')
                 (property (property command ''definition'') ''arguments''))
              (map fst (own_props (property (property command ''definition'') ''arguments'')))
           = Inr args \<and>
         mapE (option_spec (property (property command ''definition'') ''options''))
              (map fst (own_props (property (property command ''definition'') ''options'')))
           = Inr opts \<and>
         entry = \<lparr>sub_name = property command ''name'',
                   sub_description = property command ''description'',
                   sub_icon = JStr composerIcon,
                   sub_args = Many args,
                   sub_options = opts\<rparr>))"
  by (auto simp: command_entry_def andThen_eq_Inr get_eq_Inr Object_keys_eq_Inr)

lemma argument_spec_generators:
  assumes "argument_spec command_name arguments argKey = Inr a"
  shows "arg_generators a =
     Some (if command_name = JStr ''require'' then One searchGenerator
           else if command_name \<in> set packagesGeneratorTriggersCommands
           then One packagesGenerator
           else Many [])"
proof (cases "nullish arguments \<or> nullish (property arguments argKey)")
  case True
  then have "argument_spec command_name arguments argKey = Inl TypeError"
    by (rule argument_spec_raises)
  with assms show ?thesis by simp
next
  case False
  then have "\<not> nullish arguments" "\<not> nullish (property arguments argKey)" by simp_all
  from argument_spec_eq [OF this, of command_name] assms show ?thesis by auto
qed

lemma command_entry_example_require: "command_entry example_require = Inr example_require_entry"
  by (simp add: example_require_def example_require_entry_def command_entry_def
      argument_spec_def argDefault_def get_def property_def Object_keys_def
      packagesGeneratorTriggersCommands_def)

text \<open>
  Claim C4. In the record built for a cataloged command there is one argument record
  for each argument of the command, and each of them carries: the remote search
  adapter exactly when the command's name is the string \<^verbatim>\<open>require\<close>; the local
  manifest adapter exactly when the name is \<^verbatim>\<open>update\<close> or \<^verbatim>\<open>remove\<close>; the empty
  generator list exactly when the name is none of the three.
\<close>

theorem argument_generators_by_command_name:
  assumes "command_entry command = Inr entry"
  shows "\<exists>args. sub_args entry = Many args \<and>
    length args =
      length (own_props (property (property command ''definition'') ''arguments'')) \<and>
    (\<forall>a \<in> set args.
       (arg_generators a = Some (One searchGenerator)
          \<longleftrightarrow> property command ''name'' = JStr ''require'') \<and>
       (arg_generators a = Some (One packagesGenerator)
          \<longleftrightarrow> property command ''name'' = JStr ''update'' \<or>
              property command ''name'' = JStr ''remove'') \<and>
       (arg_generators a = Some (Many [])
          \<longleftrightarrow> property command ''name'' \<noteq> JStr ''require'' \<and>
              property command ''name'' \<noteq> JStr ''update'' \<and>
              property command ''name'' \<noteq> JStr ''remove''))"
proof -
  let ?arguments = "property (property command ''definition'') ''arguments''"
  let ?name = "property command ''name''"
  from assms obtain args where
    args: "mapE (argument_spec ?name ?arguments) (map fst (own_props ?arguments)) = Inr args"
    and entry: "sub_args entry = Many args"
    unfolding command_entry_eq_Inr by auto
  from args have len: "length args = length (own_props ?arguments)"
    by (simp add: mapE_length)
  have gen: "arg_generators a =
     Some (if ?name = JStr ''require'' then One searchGenerator
           else if ?name \<in> set packagesGeneratorTriggersCommands
           then One packagesGenerator
           else Many [])" if "a \<in> set args" for a
  proof -
    from mapE_result_from [OF args that] obtain k
      where "argument_spec ?name ?arguments k = Inr a" by blast
    then show ?thesis by (rule argument_spec_generators)
  qed
  have "(arg_generators a = Some (One searchGenerator) \<longleftrightarrow> ?name = JStr ''require'') \<and>
       (arg_generators a = Some (One packagesGenerator)
          \<longleftrightarrow> ?name = JStr ''update'' \<or> ?name = JStr ''remove'') \<and>
       (arg_generators a = Some (Many [])
          \<longleftrightarrow> ?name \<noteq> JStr ''require'' \<and> ?name \<noteq> JStr ''update'' \<and>
              ?name \<noteq> JStr ''remove'')" if "a \<in> set args" for a
    using gen [OF that] by (simp add: packagesGeneratorTriggersCommands_def)
  with entry len show ?thesis by blast
qed

theorem argument_generators_by_command_name_witness:
  "command_entry example_require = Inr example_require_entry \<and>
   (\<exists>args. sub_args example_require_entry = Many args \<and> length args = 1 \<and>
      (\<forall>a \<in> set args. arg_generators a = Some (One searchGenerator)))"
  using argument_generators_by_command_name [OF command_entry_example_require]
    command_entry_example_require
  by (simp add: example_require_def property_def) blast

section \<open>The whole catalog\<close>

lemma well_formed_command_entry:
  assumes "well_formed_command command"
  shows "\<exists>entry. command_entry command = Inr entry \<and> sub_name entry = property command ''name''"
proof -
  let ?arguments = "property (property command ''definition'') ''arguments''"
  let ?options = "property (property command ''definition'') ''options''"
  from assms have ok: "\<not> nullish command" "\<not> nullish (property command ''definition'')"
    "\<not> nullish ?arguments" "\<not> nullish ?options"
    and args_ok: "list_all (\<lambda>arg. \<not> nullish arg) (map snd (own_props ?arguments))"
    and opts_ok: "list_all (\<lambda>option. is_string (property option ''shortcut''))
        (map snd (own_props ?options))"
    by (simp_all add: well_formed_command_def)
  have "\<exists>a. argument_spec (property command ''name'') ?arguments k = Inr a"
    if "k \<in> set (map fst (own_props ?arguments))" for k
  proof -
    from property_own_key [OF that] args_ok have "\<not> nullish (property ?arguments k)"
      by (auto simp: list_all_iff)
    with ok(3) show ?thesis by (simp add: argument_spec_eq)
  qed
  then obtain args where args:
    "mapE (argument_spec (property command ''name'') ?arguments)
       (map fst (own_props ?arguments)) = Inr args"
    using mapE_total by blast
  have "\<exists>opt. option_spec ?options k = Inr opt"
    if "k \<in> set (map fst (own_props ?options))" for k
  proof -
    from property_own_key [OF that] opts_ok
    have "is_string (property (property ?options k) ''shortcut'')"
      by (auto simp: list_all_iff)
    then obtain s where "property (property ?options k) ''shortcut'' = JStr s"
      by (cases "property (property ?options k) ''shortcut''") simp_all
    with ok(4) show ?thesis by (simp add: option_spec_eq)
  qed
  then obtain opts where opts:
    "mapE (option_spec ?options) (map fst (own_props ?options)) = Inr opts"
    using mapE_total by blast
  from ok args opts show ?thesis
    by (simp add: command_entry_eq_Inr)
qed

text \<open>A catalog of the declared interfaces is well-formed for the transformer.\<close>

lemma ComposerCommand_well_formed:
  assumes "ComposerCommand command"
  shows "well_formed_command command"
proof -
  let ?defn = "property command ''definition''"
  from assms have c: "is_object command" and d: "is_object ?defn"
    and a: "Record_of ComposerArgument (property ?defn ''arguments'')"
    and b: "Record_of ComposerOption (property ?defn ''options'')"
    by (simp_all add: ComposerCommand_def ComposerCommandDefinition_def)
  have obj: "\<not> nullish v" if "is_object v" for v
    using that by (cases v) simp_all
  from a obtain kvs where kvs: "property ?defn ''arguments'' = JObj kvs"
    "list_all ComposerArgument (map snd kvs)"
    by (cases "property ?defn ''arguments''") simp_all
  from b obtain kvs' where kvs': "property ?defn ''options'' = JObj kvs'"
    "list_all ComposerOption (map snd kvs')"
    by (cases "property ?defn ''options''") simp_all
  from kvs(2) have 1: "list_all (\<lambda>arg. \<not> nullish arg) (map snd kvs)"
    by (auto simp: list_all_iff ComposerArgument_def obj)
  from kvs'(2) have 2: "list_all (\<lambda>option. is_string (property option ''shortcut'')) (map snd kvs')"
    by (auto simp: list_all_iff ComposerOption_def)
  from c d kvs(1) kvs'(1) 1 2 show ?thesis
    by (simp add: well_formed_command_def obj)
qed

lemma ComposerListOutput_well_formed:
  "ComposerListOutput data \<Longrightarrow> well_formed_catalog data"
  by (cases "property data ''commands''")
     (auto simp: ComposerListOutput_def well_formed_catalog_def list_all_iff
        ComposerCommand_well_formed)

lemma catalog_commands_array:
  assumes "property data ''commands'' = JArr commands"
  shows "catalog_commands (Some data) = Inr commands"
proof -
  from assms have "\<not> nullish data"
    by (cases data) (simp_all add: property_def)
  with assms show ?thesis
    by (simp add: catalog_commands_def JSON_parse_outcome_def)
qed

text \<open>
  Claim C2. For a well-formed catalog of \<open>N\<close> commands nothing is raised or logged,
  and the subcommand list holds the \<open>N\<close> records of the commands in catalog order
  (record \<open>i\<close> is the one built from command \<open>i\<close> and bears its name), followed by
  nothing when the probe output ends with \<^verbatim>\<open>(No such file or directory)\<close>, and by
  the \<^verbatim>\<open>recipes\<close> and then the \<^verbatim>\<open>recipes:install\<close> record otherwise: \<open>N\<close> records
  in the first case, \<open>N + 2\<close> in the second.
\<close>

theorem generateSpec_count_and_order:
  assumes "well_formed_catalog data" and "property data ''commands'' = JArr commands"
  shows "\<exists>entries. mapE command_entry commands = Inr entries \<and>
    length entries = length commands \<and>
    (\<forall>i < length commands. sub_name (entries ! i) = property (commands ! i) ''name'') \<and>
    generateSpec (Some data) symfonyLock =
      (\<lparr>spec_name = ''composer'',
        spec_subcommands =
          entries @ (if endsWith symfonyLock ''(No such file or directory)'' then []
                     else [recipes, recipes_install])\<rparr>, []) \<and>
    length (spec_subcommands (fst (generateSpec (Some data) symfonyLock))) =
      (if endsWith symfonyLock ''(No such file or directory)'' then length commands
       else length commands + 2)"
proof -
  from assms have wf: "list_all well_formed_command commands"
    by (simp add: well_formed_catalog_def)
  then have "\<exists>entry. command_entry c = Inr entry" if "c \<in> set commands" for c
    using that well_formed_command_entry by (auto simp: list_all_iff)
  then obtain entries where entries: "mapE command_entry commands = Inr entries"
    using mapE_total by blast
  then have len: "length entries = length commands"
    by (rule mapE_length)
  have names: "sub_name (entries ! i) = property (commands ! i) ''name''"
    if "i < length commands" for i
  proof -
    from that wf have "well_formed_command (commands ! i)"
      by (simp add: list_all_length)
    then obtain entry where "command_entry (commands ! i) = Inr entry"
      "sub_name entry = property (commands ! i) ''name''"
      using well_formed_command_entry by blast
    with mapE_nth [OF entries that] show ?thesis by simp
  qed
  from entries have push: "push_commands commands [] = (None, entries)"
    by (simp add: push_commands_done)
  have run: "generateSpec (Some data) symfonyLock =
      (\<lparr>spec_name = ''composer'',
        spec_subcommands =
          entries @ (if endsWith symfonyLock ''(No such file or directory)'' then []
                     else [recipes, recipes_install])\<rparr>, [])"
    by (simp add: generateSpec_def generateSpec_try_def catalog_commands_array [OF assms(2)]
        push symfonyLockExists_def)
  from entries len names run show ?thesis by simp
qed

theorem generateSpec_count_and_order_witness:
  "generateSpec (Some example_catalog) ''symfony.lock: ASCII text'' =
     (\<lparr>spec_name = ''composer'',
       spec_subcommands = [example_require_entry, recipes, recipes_install]\<rparr>, []) \<and>
   generateSpec (Some example_catalog)
       ''symfony.lock: cannot open `symfony.lock' (No such file or directory)'' =
     (\<lparr>spec_name = ''composer'', spec_subcommands = [example_require_entry]\<rparr>, [])"
proof -
  have wf: "well_formed_catalog example_catalog"
    by (simp add: well_formed_catalog_def well_formed_command_def example_catalog_def
        example_require_def property_def)
  have commands: "property example_catalog ''commands'' = JArr [example_require]"
    by (simp add: example_catalog_def property_def)
  from generateSpec_count_and_order [OF wf commands, of "''symfony.lock: ASCII text''"]
    generateSpec_count_and_order [OF wf commands,
      of "''symfony.lock: cannot open `symfony.lock' (No such file or directory)''"]
  show ?thesis
    by (auto simp: command_entry_example_require endsWith_def)
qed

section \<open>The entry point when something is raised\<close>

lemma command_entry_without_definition:
  "command_entry (JObj [(''name'', JStr ''broken'')]) = Inl TypeError"
  by (simp add: command_entry_def get_def property_def)

lemma catalog_commands_malformed_second:
  "catalog_commands (Some example_catalog_malformed_second) =
     Inr [example_require, JObj [(''name'', JStr ''broken'')]]"
  by (simp add: catalog_commands_def JSON_parse_outcome_def example_catalog_malformed_second_def
      get_def property_def)

lemma generateSpec_malformed_second:
  "generateSpec (Some example_catalog_malformed_second) symfonyLock =
     (\<lparr>spec_name = ''composer'', spec_subcommands = [example_require_entry]\<rparr>, [TypeError])"
  by (simp add: generateSpec_def generateSpec_try_def catalog_commands_malformed_second
      command_entry_example_require command_entry_without_definition)

lemma first_failing:
  assumes "\<exists>x \<in> set xs. \<exists>e. f x = Inl e"
  shows "\<exists>before failing after ys e.
    xs = before @ failing # after \<and> mapE f before = Inr ys \<and> f failing = Inl e"
  using assms
proof (induction xs)
  case Nil
  then show ?case by simp
next
  case (Cons x xs)
  show ?case
  proof (cases "f x")
    case (Inl e)
    then have "x # xs = [] @ x # xs \<and> mapE f [] = Inr [] \<and> f x = Inl e" by simp
    then show ?thesis by blast
  next
    case (Inr y)
    with Cons.prems have "\<exists>x \<in> set xs. \<exists>e. f x = Inl e" by auto
    from Cons.IH [OF this] obtain before failing after ys e where
      *: "xs = before @ failing # after" "mapE f before = Inr ys" "f failing = Inl e"
      by blast
    with Inr have "x # xs = (x # before) @ failing # after \<and>
      mapE f (x # before) = Inr (y # ys) \<and> f failing = Inl e" by simp
    then show ?thesis by blast
  qed
qed

lemma generateSpec_loop_cannot_start:
  assumes "catalog_commands parsed = Inl e"
  shows "generateSpec parsed symfonyLock =
    (\<lparr>spec_name = ''composer'', spec_subcommands = []\<rparr>, [e])"
  using assms by (simp add: generateSpec_def generateSpec_try_def)

lemma generateSpec_command_raises:
  assumes "catalog_commands parsed = Inr (before @ failing # after)"
    and "mapE command_entry before = Inr entries"
    and "command_entry failing = Inl e"
  shows "generateSpec parsed symfonyLock =
    (\<lparr>spec_name = ''composer'', spec_subcommands = entries\<rparr>, [e])"
proof -
  from assms(2,3) have "push_commands (before @ failing # after) [] = (Some e, entries)"
    unfolding push_commands_raised by auto
  with assms(1) show ?thesis
    by (simp add: generateSpec_def generateSpec_try_def)
qed

lemma generateSpec_nothing_raises:
  assumes "catalog_commands parsed = Inr commands"
    and "\<not> (\<exists>c \<in> set commands. \<exists>e. command_entry c = Inl e)"
  shows "snd (generateSpec parsed symfonyLock) = []"
proof -
  from assms(2) have "\<exists>entry. command_entry c = Inr entry" if "c \<in> set commands" for c
    using that by (cases "command_entry c") auto
  then obtain entries where "mapE command_entry commands = Inr entries"
    using mapE_total by blast
  then have "push_commands commands [] = (None, entries)"
    by (simp add: push_commands_done)
  with assms(1) show ?thesis
    by (simp add: generateSpec_def generateSpec_try_def)
qed

text \<open>
  Claim C1, as amended. When the \<^verbatim>\<open>try\<close> block raises, the entry point logs exactly
  that error and returns a tree whose subcommand list holds the records of the
  commands that come before the first command whose transformation raised, in
  catalog order, and neither recipe record. A raise is one of two events: the loop
  cannot start (\<^verbatim>\<open>JSON.parse\<close> throws, or the parsed value has no iterable
  \<^verbatim>\<open>commands\<close>), and then the list is empty; or the transformation of some command
  raises, and then the list is empty only if that command is the first. Something
  is logged exactly when one of the two happens.
\<close>

theorem generateSpec_raised_keeps_finished_entries:
  "(parsed = None \<longrightarrow>
      generateSpec parsed symfonyLock =
        (\<lparr>spec_name = ''composer'', spec_subcommands = []\<rparr>, [SyntaxError])) \<and>
   (catalog_commands parsed = Inl e \<longrightarrow>
      generateSpec parsed symfonyLock =
        (\<lparr>spec_name = ''composer'', spec_subcommands = []\<rparr>, [e])) \<and>
   (catalog_commands parsed = Inr commands \<and>
    (\<exists>c \<in> set commands. \<exists>e'. command_entry c = Inl e') \<longrightarrow>
      (\<exists>before failing after entries e'.
         commands = before @ failing # after \<and>
         mapE command_entry before = Inr entries \<and>
         command_entry failing = Inl e' \<and>
         generateSpec parsed symfonyLock =
           (\<lparr>spec_name = ''composer'', spec_subcommands = entries\<rparr>, [e']))) \<and>
   (snd (generateSpec parsed symfonyLock) \<noteq> [] \<longleftrightarrow>
      (\<exists>e'. catalog_commands parsed = Inl e') \<or>
      (\<exists>commands'. catalog_commands parsed = Inr commands' \<and>
         (\<exists>c \<in> set commands'. \<exists>e'. command_entry c = Inl e')))"
proof -
  have 1: "parsed = None \<longrightarrow>
      generateSpec parsed symfonyLock =
        (\<lparr>spec_name = ''composer'', spec_subcommands = []\<rparr>, [SyntaxError])"
  proof
    assume "parsed = None"
    then have "catalog_commands parsed = Inl SyntaxError"
      by (simp add: catalog_commands_def JSON_parse_outcome_def)
    then show "generateSpec parsed symfonyLock =
        (\<lparr>spec_name = ''composer'', spec_subcommands = []\<rparr>, [SyntaxError])"
      by (rule generateSpec_loop_cannot_start)
  qed
  have 2: "catalog_commands parsed = Inl e \<longrightarrow>
      generateSpec parsed symfonyLock =
        (\<lparr>spec_name = ''composer'', spec_subcommands = []\<rparr>, [e])"
    by (simp add: generateSpec_loop_cannot_start)
  have 3: "\<exists>before failing after entries e'.
         cs = before @ failing # after \<and>
         mapE command_entry before = Inr entries \<and>
         command_entry failing = Inl e' \<and>
         generateSpec parsed symfonyLock =
           (\<lparr>spec_name = ''composer'', spec_subcommands = entries\<rparr>, [e'])"
    if cs: "catalog_commands parsed = Inr cs"
      and bad: "\<exists>c \<in> set cs. \<exists>e'. command_entry c = Inl e'" for cs
  proof -
    from first_failing [OF bad] obtain before failing after entries e' where
      *: "cs = before @ failing # after" "mapE command_entry before = Inr entries"
         "command_entry failing = Inl e'"
      by blast
    from cs * have "generateSpec parsed symfonyLock =
           (\<lparr>spec_name = ''composer'', spec_subcommands = entries\<rparr>, [e'])"
      by (simp add: generateSpec_command_raises)
    with * show ?thesis by blast
  qed
  have 4: "snd (generateSpec parsed symfonyLock) \<noteq> [] \<longleftrightarrow>
      (\<exists>e'. catalog_commands parsed = Inl e') \<or>
      (\<exists>commands'. catalog_commands parsed = Inr commands' \<and>
         (\<exists>c \<in> set commands'. \<exists>e'. command_entry c = Inl e'))"
  proof (cases "catalog_commands parsed")
    case (Inl e')
    then show ?thesis by (simp add: generateSpec_loop_cannot_start)
  next
    case (Inr cs)
    show ?thesis
    proof (cases "\<exists>c \<in> set cs. \<exists>e'. command_entry c = Inl e'")
      case True
      from 3 [OF Inr True] have "snd (generateSpec parsed symfonyLock) \<noteq> []" by auto
      with Inr True show ?thesis by simp
    next
      case False
      from generateSpec_nothing_raises [OF Inr False]
      have "snd (generateSpec parsed symfonyLock) = []" .
      with Inr False show ?thesis by simp
    qed
  qed
  from 1 2 3 4 show ?thesis by blast
qed

theorem generateSpec_raised_keeps_finished_entries_witness:
  "generateSpec None ''symfony.lock: ASCII text'' =
     (\<lparr>spec_name = ''composer'', spec_subcommands = []\<rparr>, [SyntaxError]) \<and>
   generateSpec (Some JNull) ''symfony.lock: ASCII text'' =
     (\<lparr>spec_name = ''composer'', spec_subcommands = []\<rparr>, [TypeError]) \<and>
   (\<exists>before failing after entries e'.
      [example_require, JObj [(''name'', JStr ''broken'')]] = before @ failing # after \<and>
      mapE command_entry before = Inr entries \<and>
      command_entry failing = Inl e' \<and>
      generateSpec (Some example_catalog_malformed_second) ''symfony.lock: ASCII text'' =
        (\<lparr>spec_name = ''composer'', spec_subcommands = entries\<rparr>, [e'])) \<and>
   snd (generateSpec (Some example_catalog_malformed_second) ''symfony.lock: ASCII text'') \<noteq> []"
proof -
  have null: "catalog_commands (Some JNull) = Inl TypeError"
    by (simp add: catalog_commands_def JSON_parse_outcome_def get_def)
  have bad: "\<exists>c \<in> set [example_require, JObj [(''name'', JStr ''broken'')]].
      \<exists>e'. command_entry c = Inl e'"
    by (simp add: command_entry_without_definition)
  from generateSpec_raised_keeps_finished_entries
      [of None "''symfony.lock: ASCII text''" SyntaxError "[]"]
    generateSpec_raised_keeps_finished_entries
      [of "Some JNull" "''symfony.lock: ASCII text''" TypeError "[]"]
    generateSpec_raised_keeps_finished_entries
      [of "Some example_catalog_malformed_second" "''symfony.lock: ASCII text''" TypeError
          "[example_require, JObj [(''name'', JStr ''broken'')]]"]
    null bad catalog_commands_malformed_second
  show ?thesis by (simp add: command_entry_without_definition)
qed

text \<open>
  Claim C1 as it was stated promises an empty list after any exception. A catalog
  whose second command has no \<^verbatim>\<open>definition\<close> raises in the second round of the loop,
  and the record pushed in the first round stays in the returned tree.
\<close>

theorem generateSpec_partial_list_counterexample:
  "generateSpec (Some example_catalog_malformed_second) ''symfony.lock: ASCII text'' =
     (\<lparr>spec_name = ''composer'', spec_subcommands = [example_require_entry]\<rparr>, [TypeError])"
  by (simp add: generateSpec_def generateSpec_try_def catalog_commands_malformed_second
      command_entry_example_require command_entry_without_definition)

section \<open>The remote search adapter: empty term and failures\<close>

lemma suggestions_of_items:
  "mapE (\<lambda>item.
       andThen (get item ''name'') (\<lambda>n.
       andThen (get item ''description'') (\<lambda>d.
       Inr \<lparr>sug_name = n, sug_description = d, sug_icon = PackageEmoji\<rparr>))) items =
     (if list_ex nullish items then Inl TypeError
      else Inr (map (\<lambda>item. \<lparr>sug_name = property item ''name'',
                              sug_description = property item ''description'',
                              sug_icon = PackageEmoji\<rparr>) items))"
  by (induction items) (auto simp: get_def)

lemma searchGenerator_postProcess_try_Some:
  "searchGenerator_postProcess_try (Some v) =
     (case property v ''results'' of
        JArr items \<Rightarrow>
          (if list_ex nullish items then Inl TypeError
           else Inr (map (\<lambda>item. \<lparr>sug_name = property item ''name'',
                                   sug_description = property item ''description'',
                                   sug_icon = PackageEmoji\<rparr>) items))
      | _ \<Rightarrow> Inl TypeError)"
proof (cases "nullish v")
  case True
  then show ?thesis
    by (simp add: searchGenerator_postProcess_try_def JSON_parse_outcome_def)
next
  case False
  then show ?thesis
    by (cases "property v ''results''")
       (simp_all add: searchGenerator_postProcess_try_def JSON_parse_outcome_def
          suggestions_of_items)
qed

text \<open>
  Claim C8, as amended. With an empty last token the script is the empty command.
  The post-processing returns the empty list when the output does not parse (as the
  empty output of the empty command does not), when what it parses to has no array
  under \<^verbatim>\<open>results\<close> (which includes a parsed \<^verbatim>\<open>null\<close>), and when an item of that
  array is \<^verbatim>\<open>null\<close>: these are the cases that raise. For any other array it returns
  one suggestion for each item, with the name and the description that the item
  has, absent where the item has none.
\<close>

theorem searchGenerator_empty_term_and_failures:
  "(context \<noteq> [] \<and> last context = [] \<longrightarrow> searchGenerator_script context = []) \<and>
   searchGenerator_postProcess None = [] \<and>
   (\<not> isArray (property v ''results'') \<longrightarrow> searchGenerator_postProcess (Some v) = []) \<and>
   (property v ''results'' = JArr items \<and> list_ex nullish items
      \<longrightarrow> searchGenerator_postProcess (Some v) = []) \<and>
   (property v ''results'' = JArr items \<and> \<not> list_ex nullish items
      \<longrightarrow> searchGenerator_postProcess (Some v) =
          map (\<lambda>item. \<lparr>sug_name = property item ''name'',
                         sug_description = property item ''description'',
                         sug_icon = PackageEmoji\<rparr>) items)"
proof -
  have 1: "context \<noteq> [] \<and> last context = [] \<longrightarrow> searchGenerator_script context = []"
    by (simp add: searchGenerator_script_def)
  have 2: "searchGenerator_postProcess None = []"
    by (simp add: searchGenerator_postProcess_def searchGenerator_postProcess_try_def
        JSON_parse_outcome_def)
  have 3: "\<not> isArray (property v ''results'') \<longrightarrow> searchGenerator_postProcess (Some v) = []"
    by (cases "property v ''results''")
       (simp_all add: searchGenerator_postProcess_def searchGenerator_postProcess_try_Some)
  have 4: "property v ''results'' = JArr items \<and> list_ex nullish items
      \<longrightarrow> searchGenerator_postProcess (Some v) = []"
    by (simp add: searchGenerator_postProcess_def searchGenerator_postProcess_try_Some)
  have 5: "property v ''results'' = JArr items \<and> \<not> list_ex nullish items
      \<longrightarrow> searchGenerator_postProcess (Some v) =
          map (\<lambda>item. \<lparr>sug_name = property item ''name'',
                         sug_description = property item ''description'',
                         sug_icon = PackageEmoji\<rparr>) items"
    by (simp add: searchGenerator_postProcess_def searchGenerator_postProcess_try_Some)
  from 1 2 3 4 5 show ?thesis by blast
qed

theorem searchGenerator_empty_term_and_failures_witness:
  "searchGenerator_script [''composer'', ''require'', []] = [] \<and>
   searchGenerator_postProcess (Some (JObj [(''error'', JStr ''rate limit'')])) = [] \<and>
   searchGenerator_postProcess (Some (JObj [(''results'', JArr [JNull])])) = [] \<and>
   searchGenerator_postProcess
     (Some (JObj [(''results'', JArr [JObj [(''name'', JStr ''symfony/console''),
                                            (''description'', JStr ''Console'')]])])) =
     [\<lparr>sug_name = JStr ''symfony/console'', sug_description = JStr ''Console'',
       sug_icon = PackageEmoji\<rparr>]"
  using searchGenerator_empty_term_and_failures
      [of "[''composer'', ''require'', []]" "JObj [(''error'', JStr ''rate limit'')]" "[]"]
    searchGenerator_empty_term_and_failures
      [of "[]" "JObj [(''results'', JArr [JNull])]" "[JNull]"]
    searchGenerator_empty_term_and_failures
      [of "[]" "JObj [(''results'', JArr [JObj [(''name'', JStr ''symfony/console''),
                                            (''description'', JStr ''Console'')]])]"
          "[JObj [(''name'', JStr ''symfony/console''), (''description'', JStr ''Console'')]]"]
  by (simp add: property_def)

text \<open>
  Claim C8 as it was stated promises the empty list for any output of the wrong
  shape. An output whose \<^verbatim>\<open>results\<close> holds the number 42 instead of a package record
  raises nothing and gives one suggestion without name and description.
\<close>

theorem searchGenerator_postProcess_wrong_items_counterexample:
  "searchGenerator_postProcess (Some (JObj [(''results'', JArr [JNum 42])])) =
     [\<lparr>sug_name = JUndefined, sug_description = JUndefined, sug_icon = PackageEmoji\<rparr>]"
  by (simp add: searchGenerator_postProcess_def searchGenerator_postProcess_try_def
      JSON_parse_outcome_def get_def property_def)

end
